theory Spec2Isabelle
  imports Complex_Main "HOL-Library.Sublist"
begin

section \<open>Subtitle-to-audio pipeline of \<^verbatim>\<open>bark/srt_gen.py\<close>\<close>

text \<open>
  The development embeds \<^verbatim>\<open>parse_srt\<close>, \<^verbatim>\<open>time_to_seconds\<close>, \<^verbatim>\<open>generate_silence\<close>
  and \<^verbatim>\<open>srt_to_audio\<close>. Conventions of the embedding:
  \<^item> a Python string is a \<open>string\<close>; a character stands for a code point below 256, so
    text beyond Latin-1 is outside the model;
  \<^item> Python integers are \<open>int\<close> (counters that only grow from 0 or 1 are \<open>nat\<close>);
  \<^item> the seconds computed by \<^verbatim>\<open>time_to_seconds\<close> are exact rationals: the rounding of
    Python's binary floating point is not modelled;
  \<^item> an exception is a value of type \<open>error\<close>, returned as \<open>Inl\<close>;
  \<^item> the audio library (pydub) and the synthesizer (\<^verbatim>\<open>generate_audio\<close>) are not part of
    the file; they are a record of operations that every function takes as a parameter;
  \<^item> the call of \<^verbatim>\<open>preload_models\<close> when the module is imported, the progress bar and the
    printed messages are left out; an export itself is taken to succeed.
\<close>

datatype error =
    FileNotFoundError
  | IsADirectoryError
  | FileExistsError
  | ValueError
  | ZeroDivisionError
  | SynthesisError

subsection \<open>The string methods used by the parser\<close>

text \<open>\<^verbatim>\<open>str.isspace\<close> on the code points below 256: TAB..CR, FS..US, space, NEL, NBSP.\<close>

definition isspace :: "char \<Rightarrow> bool" where
  "isspace c =
     (let n = (of_char c :: nat)
      in (9 \<le> n \<and> n \<le> 13) \<or> (28 \<le> n \<and> n \<le> 32) \<or> n = 133 \<or> n = 160)"

text \<open>\<^verbatim>\<open>s.strip()\<close>: whitespace removed at both ends.\<close>

definition str_strip :: "string \<Rightarrow> string" where
  "str_strip s = rev (dropWhile isspace (rev (dropWhile isspace s)))"

text \<open>
  \<^verbatim>\<open>s.split(sep)\<close> for a non-empty separator: the occurrences of \<open>sep\<close> are found from
  the left and do not overlap; \<open>cur\<close> is the piece being collected. Every call in the
  source passes a non-empty literal.
\<close>

fun split_from :: "string \<Rightarrow> string \<Rightarrow> string \<Rightarrow> string list" where
  "split_from sep cur [] = [cur]"
| "split_from sep cur (c # cs) =
     (if prefix sep (c # cs)
      then cur # split_from sep [] (drop (length sep - 1) cs)
      else split_from sep (cur @ [c]) cs)"

definition str_split :: "string \<Rightarrow> string \<Rightarrow> string list" where
  "str_split s sep = split_from sep [] s"

text \<open>\<^verbatim>\<open>sep.join(xs)\<close>.\<close>

fun str_join :: "string \<Rightarrow> string list \<Rightarrow> string" where
  "str_join sep [] = []"
| "str_join sep [x] = x"
| "str_join sep (x # y # ys) = x @ sep @ str_join sep (y # ys)"

text \<open>\<^verbatim>\<open>sub in s\<close> is \<^term>\<open>sublist sub s\<close>.\<close>

subsection \<open>\<^verbatim>\<open>int(s)\<close> on a string\<close>

definition isdigit :: "char \<Rightarrow> bool" where
  "isdigit c = (48 \<le> (of_char c :: nat) \<and> (of_char c :: nat) \<le> 57)"

definition digit_value :: "char \<Rightarrow> int" where
  "digit_value c = int (of_char c) - 48"

definition decimal :: "string \<Rightarrow> int" where
  "decimal ds = foldl (\<lambda>acc c. 10 * acc + digit_value c) 0 ds"

text \<open>
  The digits of an integer literal: a digit first and last, and a single underscore
  allowed between two digits.
\<close>

fun int_body :: "string \<Rightarrow> bool" where
  "int_body [] = False"
| "int_body [c] = isdigit c"
| "int_body (c # d # r) =
     (isdigit c \<and> (if d = CHR ''_'' then int_body r else int_body (d # r)))"

text \<open>
  \<^verbatim>\<open>int(s)\<close>: surrounding whitespace is ignored, one sign is accepted, anything else
  raises \<^verbatim>\<open>ValueError\<close>. (The interpreter's configurable limit on the number of digits
  is not modelled.)
\<close>

definition py_int :: "string \<Rightarrow> error + int" where
  "py_int s =
     (let t = str_strip s;
          sgn = (if take 1 t = ''-'' then - 1 else 1);
          body = (if take 1 t = ''-'' \<or> take 1 t = ''+'' then drop 1 t else t)
      in if int_body body then Inr (sgn * decimal (filter isdigit body))
         else Inl ValueError)"

subsection \<open>\<^verbatim>\<open>time_to_seconds\<close>\<close>

text \<open>
  \<^verbatim>\<open>hours, minutes, seconds = time_str.split(":")\<close> and
  \<^verbatim>\<open>seconds, milliseconds = seconds.split(",")\<close> raise \<^verbatim>\<open>ValueError\<close> when the number of
  pieces is not the number of targets; so does each \<^verbatim>\<open>int\<close>.
\<close>

definition time_to_seconds :: "string \<Rightarrow> error + rat" where
  "time_to_seconds time_str =
     (case str_split time_str '':'' of
        [hours, minutes, seconds] \<Rightarrow>
          (case str_split seconds '','' of
             [seconds', milliseconds] \<Rightarrow>
               (case (py_int hours, py_int minutes, py_int seconds', py_int milliseconds) of
                  (Inr h, Inr m, Inr s, Inr ms) \<Rightarrow>
                    Inr (of_int (h * 3600 + m * 60 + s) + of_int ms / 1000)
                | _ \<Rightarrow> Inl ValueError)
           | _ \<Rightarrow> Inl ValueError)
      | _ \<Rightarrow> Inl ValueError)"

subsection \<open>\<^verbatim>\<open>parse_srt\<close>\<close>

text \<open>One subtitle entry: the dictionary with the keys idx, start_time, end_time, text.\<close>

record entry =
  idx :: string
  start_time :: rat
  end_time :: rat
  entry_text :: string

text \<open>What a path names: a text file with the content that \<^verbatim>\<open>file.read()\<close> returns, or a directory.\<close>

datatype node = File string | Dir

type_synonym filesystem = "string \<rightharpoonup> node"

definition read_file :: "filesystem \<Rightarrow> string \<Rightarrow> error + string" where
  "read_file fs path =
     (case fs path of
        None \<Rightarrow> Inl FileNotFoundError
      | Some Dir \<Rightarrow> Inl IsADirectoryError
      | Some (File content) \<Rightarrow> Inr content)"

definition block_lines :: "string \<Rightarrow> string list" where
  "block_lines block = str_split (str_strip block) ''\<newline>''"

text \<open>
  The body of the loop over the blocks: \<open>Inr None\<close> is \<^verbatim>\<open>continue\<close>, \<open>Inr (Some e)\<close> is
  the entry appended, \<open>Inl\<close> is the exception of the unpacking
  \<^verbatim>\<open>start_time, end_time = time_range.split(" --> ")\<close> or of \<^verbatim>\<open>time_to_seconds\<close>.
\<close>

definition parse_block :: "string \<Rightarrow> error + entry option" where
  "parse_block block =
     (let lines = block_lines block in
      if length lines < 3 then Inr None
      else
        let i = str_strip (lines ! 0);
            time_range = str_strip (lines ! 1);
            t = str_strip (str_join '' '' (drop 2 lines))
        in if \<not> sublist '' --> '' time_range then Inr None
           else
             (case str_split time_range '' --> '' of
                [start, finish] \<Rightarrow>
                  (case time_to_seconds start of
                     Inl e \<Rightarrow> Inl e
                   | Inr s \<Rightarrow>
                       (case time_to_seconds finish of
                          Inl e \<Rightarrow> Inl e
                        | Inr u \<Rightarrow>
                            Inr (Some \<lparr>idx = i, start_time = s, end_time = u,
                                       entry_text = t\<rparr>)))
              | _ \<Rightarrow> Inl ValueError))"

fun parse_blocks :: "entry list \<Rightarrow> string list \<Rightarrow> error + entry list" where
  "parse_blocks subtitle_entries [] = Inr subtitle_entries"
| "parse_blocks subtitle_entries (block # blocks) =
     (case parse_block block of
        Inl e \<Rightarrow> Inl e
      | Inr None \<Rightarrow> parse_blocks subtitle_entries blocks
      | Inr (Some e) \<Rightarrow> parse_blocks (subtitle_entries @ [e]) blocks)"

definition subtitle_blocks :: "string \<Rightarrow> string list" where
  "subtitle_blocks content = str_split (str_strip content) ''\<newline>\<newline>''"

definition parse_srt :: "filesystem \<Rightarrow> string \<Rightarrow> error + entry list" where
  "parse_srt fs srt_file_path =
     (case read_file fs srt_file_path of
        Inl e \<Rightarrow> Inl e
      | Inr content \<Rightarrow> parse_blocks [] (subtitle_blocks content))"

subsection \<open>The audio library and the synthesizer\<close>

text \<open>
  What the pipeline uses of pydub, of \<^verbatim>\<open>scipy.io.wavfile\<close> and of the Bark generator,
  none of which is part of the file:
  \<^item> \<open>SAMPLE_RATE\<close>, the constant imported from \<^verbatim>\<open>.generation\<close>;
  \<^item> \<open>generate_audio text history_prompt\<close>, the samples of the spoken text, \<open>None\<close> when
    the call raises;
  \<^item> \<open>seg_from_wav\<close>, \<^verbatim>\<open>write_wav\<close> of the scaled samples followed by
    \<^verbatim>\<open>AudioSegment.from_file\<close>;
  \<^item> \<open>seg_empty\<close>, \<open>seg_silent\<close>, \<open>seg_append\<close> and \<open>seg_len\<close>: \<^verbatim>\<open>AudioSegment.empty()\<close>,
    \<^verbatim>\<open>AudioSegment.silent(duration, frame_rate)\<close>, \<^verbatim>\<open>+\<close> and \<^verbatim>\<open>len\<close>.
  Nothing is assumed of them; where a theorem needs a property of the library, it is a
  hypothesis of the theorem.
\<close>

record ('n, 'a) backend =
  SAMPLE_RATE :: nat
  generate_audio :: "string \<Rightarrow> string \<Rightarrow> 'n option"
  seg_from_wav :: "'n \<Rightarrow> nat \<Rightarrow> 'a"
  seg_empty :: 'a
  seg_silent :: "rat \<Rightarrow> nat \<Rightarrow> 'a"
  seg_append :: "'a \<Rightarrow> 'a \<Rightarrow> 'a"
  seg_len :: "'a \<Rightarrow> int"

definition numpy_array_to_audiosegment :: "('n, 'a) backend \<Rightarrow> 'n \<Rightarrow> nat \<Rightarrow> 'a" where
  "numpy_array_to_audiosegment B np_array sample_rate = seg_from_wav B np_array sample_rate"

definition generate_silence :: "('n, 'a) backend \<Rightarrow> rat \<Rightarrow> 'a" where
  "generate_silence B duration_ms = seg_silent B duration_ms (SAMPLE_RATE B)"

text \<open>
  A backend to run the pipeline on: a segment is the list of its samples, the
  synthesizer is the function \<open>voice\<close>, and \<open>len\<close> is the duration in whole milliseconds.
\<close>

definition pcm :: "nat \<Rightarrow> (string \<Rightarrow> int list option) \<Rightarrow> (int list, int list) backend" where
  "pcm rate voice =
     \<lparr>SAMPLE_RATE = rate,
      generate_audio = (\<lambda>text history_prompt. voice text),
      seg_from_wav = (\<lambda>np_array sample_rate. np_array),
      seg_empty = [],
      seg_silent = (\<lambda>duration frame_rate. replicate (nat \<lfloor>of_nat frame_rate * duration / 1000\<rfloor>) 0),
      seg_append = (\<lambda>a b. a @ b),
      seg_len = (\<lambda>a. 1000 * int (length a) div int rate)\<rparr>"

subsection \<open>\<^verbatim>\<open>srt_to_audio\<close>\<close>

text \<open>One call of \<^verbatim>\<open>final_audio.export\<close>: the part number, the path and the audio written.\<close>

record 'a output_unit =
  part :: nat
  output_path :: string
  audio :: 'a

text \<open>\<^verbatim>\<open>str(n)\<close> for a natural number, and \<^verbatim>\<open>os.path.join\<close> (POSIX) with a relative name.\<close>

fun str_nat :: "nat \<Rightarrow> string" where
  "str_nat n =
     (if n < 10 then [''0123456789'' ! n]
      else str_nat (n div 10) @ [''0123456789'' ! (n mod 10)])"

declare str_nat.simps [simp del]

definition path_join :: "string \<Rightarrow> string \<Rightarrow> string" where
  "path_join a b = (if a = [] \<or> last a = CHR ''/'' then a @ b else a @ ''/'' @ b)"

definition part_path :: "string \<Rightarrow> nat \<Rightarrow> string" where
  "part_path output_dir part_number =
     path_join output_dir (''output_part_'' @ str_nat part_number @ ''.wav'')"

text \<open>
  The local variables of the loop, together with the exports made so far (the only
  effect of the loop that outlives an exception).
\<close>

record 'a assembler =
  final_audio :: 'a
  previous_end_time :: rat
  part_number :: nat
  exported :: "'a output_unit list"

definition initial :: "('n, 'a) backend \<Rightarrow> 'a assembler" where
  "initial B =
     \<lparr>final_audio = seg_empty B, previous_end_time = 0, part_number = 1, exported = []\<rparr>"

definition silence_duration :: "rat \<Rightarrow> rat \<Rightarrow> rat" where
  "silence_duration start previous_end = max 0 ((start - previous_end) * 1000)"

text \<open>
  Lines 88 to 96: the buffer after the silence of the gap and, for a text that is not
  blank, the synthesized speech; \<open>None\<close> when the synthesizer raises.
\<close>

definition append_entry ::
  "('n, 'a) backend \<Rightarrow> string \<Rightarrow> 'a \<Rightarrow> rat \<Rightarrow> entry \<Rightarrow> 'a option" where
  "append_entry B history_prompt buffer previous_end e =
     (let with_gap =
            seg_append B buffer
              (generate_silence B (silence_duration (start_time e) previous_end))
      in if str_strip (entry_text e) \<noteq> []
         then (case generate_audio B (entry_text e) history_prompt of
                 None \<Rightarrow> None
               | Some audio_np \<Rightarrow>
                   Some (seg_append B with_gap
                           (numpy_array_to_audiosegment B audio_np (SAMPLE_RATE B))))
         else Some with_gap)"

definition export_part :: "string \<Rightarrow> 'a assembler \<Rightarrow> 'a assembler" where
  "export_part output_dir st =
     st\<lparr>exported := exported st @
          [\<lparr>part = part_number st,
            output_path = part_path output_dir (part_number st),
            audio = final_audio st\<rparr>]\<rparr>"

text \<open>
  One iteration of the loop, for the entry at position \<open>i\<close>. The remainder by a zero
  \<open>chunk_size\<close> raises; Python's \<^verbatim>\<open>%\<close> on integers is \<open>mod\<close> on \<open>int\<close>.
\<close>

definition process_entry ::
  "('n, 'a) backend \<Rightarrow> string \<Rightarrow> string \<Rightarrow> int \<Rightarrow> 'a assembler \<Rightarrow> nat \<Rightarrow> entry
     \<Rightarrow> error + 'a assembler" where
  "process_entry B output_dir history_prompt chunk_size st i e =
     (case append_entry B history_prompt (final_audio st) (previous_end_time st) e of
        None \<Rightarrow> Inl SynthesisError
      | Some a \<Rightarrow>
          let st1 = st\<lparr>final_audio := a, previous_end_time := end_time e\<rparr>
          in if chunk_size = 0 then Inl ZeroDivisionError
             else if (int i + 1) mod chunk_size = 0
             then Inr ((export_part output_dir st1)
                         \<lparr>final_audio := seg_empty B, part_number := part_number st1 + 1\<rparr>)
             else Inr st1)"

text \<open>
  The loop over \<^verbatim>\<open>enumerate(subtitles)\<close>. When an iteration raises, the state before it
  is returned with the error: its exports are the files already on disk.
\<close>

fun entries_loop ::
  "('n, 'a) backend \<Rightarrow> string \<Rightarrow> string \<Rightarrow> int \<Rightarrow> 'a assembler \<Rightarrow> nat \<Rightarrow> entry list
     \<Rightarrow> 'a assembler \<times> error option" where
  "entries_loop B output_dir history_prompt chunk_size st i [] = (st, None)"
| "entries_loop B output_dir history_prompt chunk_size st i (e # es) =
     (case process_entry B output_dir history_prompt chunk_size st i e of
        Inl err \<Rightarrow> (st, Some err)
      | Inr st' \<Rightarrow> entries_loop B output_dir history_prompt chunk_size st' (Suc i) es)"

text \<open>Lines 79 to 112: the loop and the export of what remains.\<close>

definition assemble ::
  "('n, 'a) backend \<Rightarrow> string \<Rightarrow> string \<Rightarrow> int \<Rightarrow> entry list
     \<Rightarrow> 'a output_unit list \<times> error option" where
  "assemble B output_dir history_prompt chunk_size subtitles =
     (case entries_loop B output_dir history_prompt chunk_size (initial B) 0 subtitles of
        (st, Some err) \<Rightarrow> (exported st, Some err)
      | (st, None) \<Rightarrow>
          (if 0 < seg_len B (final_audio st)
           then exported (export_part output_dir st)
           else exported st, None))"

text \<open>
  \<^verbatim>\<open>os.makedirs(output_dir, exist_ok=True)\<close>: an empty path and a path that names a file
  raise. (Parent directories are not modelled.)
\<close>

definition makedirs :: "filesystem \<Rightarrow> string \<Rightarrow> error option" where
  "makedirs fs d =
     (if d = [] then Some FileNotFoundError
      else case fs d of Some (File content) \<Rightarrow> Some FileExistsError | _ \<Rightarrow> None)"

text \<open>
  What a call of \<^verbatim>\<open>srt_to_audio\<close> leaves behind: the directories it created or found,
  the files it exported, in order, and the exception it raised, if any.
\<close>

record 'a run =
  created :: "string list"
  written :: "'a output_unit list"
  raised :: "error option"

definition srt_to_audio ::
  "('n, 'a) backend \<Rightarrow> filesystem \<Rightarrow> string \<Rightarrow> string \<Rightarrow> string \<Rightarrow> int \<Rightarrow> 'a run" where
  "srt_to_audio B fs srt_file_path output_dir history_prompt chunk_size =
     (if fs srt_file_path = None
      then \<lparr>created = [], written = [], raised = Some FileNotFoundError\<rparr>
      else
        case makedirs fs output_dir of
          Some err \<Rightarrow> \<lparr>created = [], written = [], raised = Some err\<rparr>
        | None \<Rightarrow>
            (case parse_srt fs srt_file_path of
               Inl err \<Rightarrow> \<lparr>created = [output_dir], written = [], raised = Some err\<rparr>
             | Inr subtitles \<Rightarrow>
                 (case assemble B output_dir history_prompt chunk_size subtitles of
                    (units, r) \<Rightarrow>
                      \<lparr>created = [output_dir], written = units, raised = r\<rparr>)))"

subsection \<open>Notions used to state the properties\<close>



text \<open>The entries that a list of blocks yields, in the order of the blocks.\<close>

definition entries_of :: "string list \<Rightarrow> entry list" where
  "entries_of blocks =
     List.map_filter (\<lambda>b. case parse_block b of Inr (Some e) \<Rightarrow> Some e | _ \<Rightarrow> None) blocks"

text \<open>
  The buffer that a run of consecutive entries builds on \<open>buffer\<close>, the cursor being
  \<open>previous_end\<close> before the first of them; and the cursor after the run.
\<close>

fun accumulate ::
  "('n, 'a) backend \<Rightarrow> string \<Rightarrow> 'a \<Rightarrow> rat \<Rightarrow> entry list \<Rightarrow> 'a option" where
  "accumulate B history_prompt buffer previous_end [] = Some buffer"
| "accumulate B history_prompt buffer previous_end (e # es) =
     (case append_entry B history_prompt buffer previous_end e of
        None \<Rightarrow> None
      | Some a \<Rightarrow> accumulate B history_prompt a (end_time e) es)"

definition cursor_after :: "rat \<Rightarrow> entry list \<Rightarrow> rat" where
  "cursor_after previous_end es = (if es = [] then previous_end else end_time (last es))"

text \<open>Entries without speech and without a gap: blank text, start not after the cursor.\<close>

fun silent_run :: "rat \<Rightarrow> entry list \<Rightarrow> bool" where
  "silent_run previous_end [] = True"
| "silent_run previous_end (e # es) =
     (str_strip (entry_text e) = [] \<and> start_time e \<le> previous_end \<and>
      silent_run (end_time e) es)"

text \<open>
  What the remainder export needs of the library: the empty segment has length 0, and
  so has a segment of length 0 followed by a silence of 0 ms.
\<close>

definition zero_length_laws :: "('n, 'a) backend \<Rightarrow> bool" where
  "zero_length_laws B =
     (seg_len B (seg_empty B) = 0 \<and>
      (\<forall>a. seg_len B a = 0 \<longrightarrow> seg_len B (seg_append B a (generate_silence B 0)) = 0))"

text \<open>The output unit that holds \<open>a\<close> as part \<open>n\<close>.\<close>

definition unit_of :: "string \<Rightarrow> nat \<Rightarrow> 'a \<Rightarrow> 'a output_unit" where
  "unit_of output_dir n a = \<lparr>part = n, output_path = part_path output_dir n, audio = a\<rparr>"

text \<open>The exports made so far carry the part numbers 1, 2, ... below \<open>part_number\<close>.\<close>

definition numbered :: "string \<Rightarrow> 'a assembler \<Rightarrow> bool" where
  "numbered output_dir st =
     (0 < part_number st \<and>
      exported st = map (\<lambda>u. unit_of output_dir (part u) (audio u)) (exported st) \<and>
      map part (exported st) = [1..<part_number st])"

text \<open>A synthesizer for the examples: every text is spoken as the same three samples.\<close>

definition beep :: "string \<Rightarrow> int list option" where
  "beep text = Some [1, 2, 3]"

section \<open>The timestamp conversion\<close>












section \<open>The parser\<close>

lemma sublist_str_strip: "sublist (str_strip s) s"
proof -
  have "sublist (dropWhile isspace (rev (dropWhile isspace s))) (rev (dropWhile isspace s))"
    by (rule sublist_dropWhile)
  then have "sublist (str_strip s) (dropWhile isspace s)"
    by (simp add: str_strip_def sublist_rev_left)
  then show ?thesis
    using sublist_dropWhile sublist_order.order.trans by blast
qed

lemma sublist_of_strip: "sublist sub (str_strip s) \<Longrightarrow> sublist sub s"
  using sublist_str_strip sublist_order.order.trans by blast

lemma py_int_error: "py_int s = Inl e \<Longrightarrow> e = ValueError"
  by (auto simp: py_int_def Let_def split: if_splits)




lemma parse_block_skip:
  assumes "length (block_lines b) < 3 \<or> \<not> sublist '' --> '' (block_lines b ! 1)"
  shows "parse_block b = Inr None"
  using assms sublist_of_strip[of "'' --> ''" "block_lines b ! 1"]
  by (auto simp: parse_block_def Let_def)

lemma parse_blocks_append:
  "parse_blocks acc (xs @ ys) =
     (case parse_blocks acc xs of Inl e \<Rightarrow> Inl e | Inr a \<Rightarrow> parse_blocks a ys)"
proof (induction xs arbitrary: acc)
  case Nil
  then show ?case by simp
next
  case (Cons x xs)
  then show ?case by (simp split: sum.splits option.splits)
qed

lemma parse_blocks_entries:
  "parse_blocks acc bs = Inr es \<Longrightarrow> es = acc @ entries_of bs"
proof (induction bs arbitrary: acc)
  case Nil
  then show ?case by (simp add: entries_of_def)
next
  case (Cons b bs)
  show ?case
  proof (cases "parse_block b")
    case (Inl e)
    with Cons.prems show ?thesis by simp
  next
    case (Inr r)
    show ?thesis
    proof (cases r)
      case None
      with Inr Cons.prems have "parse_blocks acc bs = Inr es" by simp
      from Cons.IH[OF this] Inr None show ?thesis by (simp add: entries_of_def)
    next
      case (Some en)
      with Inr Cons.prems have "parse_blocks (acc @ [en]) bs = Inr es" by simp
      from Cons.IH[OF this] Inr Some show ?thesis by (simp add: entries_of_def)
    qed
  qed
qed


text \<open>
  C7. A block with fewer than 3 lines, or whose second line does not contain
  \<open>" --> "\<close>, is skipped without an exception: it yields no entry, the parse of the
  blocks around it is what it would be without it, and the entries of a parse that
  returns are those of the other blocks, in the order of the source.
\<close>

theorem malformed_block_skipped:
  assumes "length (block_lines b) < 3 \<or> \<not> sublist '' --> '' (block_lines b ! 1)"
  shows "parse_block b = Inr None \<and>
         parse_blocks acc (bs1 @ b # bs2) = parse_blocks acc (bs1 @ bs2) \<and>
         (\<forall>es. parse_blocks [] (bs1 @ b # bs2) = Inr es \<longrightarrow> es = entries_of (bs1 @ bs2))"
proof -
  have skip: "parse_block b = Inr None"
    using assms by (rule parse_block_skip)
  have same: "parse_blocks a (bs1 @ b # bs2) = parse_blocks a (bs1 @ bs2)" for a
    by (simp add: parse_blocks_append skip split: sum.splits)
  have "es = entries_of (bs1 @ bs2)" if "parse_blocks [] (bs1 @ b # bs2) = Inr es" for es
    using that parse_blocks_entries[of "[]" "bs1 @ bs2" es] by (simp add: same)
  with skip same show ?thesis by blast
qed

theorem malformed_block_skipped_witness:
  "\<not> sublist '' --> '' (block_lines ''2\<newline>00:00:02,000 00:00:03,000\<newline>lost'' ! 1) \<and>
   parse_blocks []
     [''1\<newline>00:00:01,000 --> 00:00:02,500\<newline>hello'',
      ''2\<newline>00:00:02,000 00:00:03,000\<newline>lost'',
      ''3\<newline>00:00:03,000 --> 00:00:04,000\<newline>bye''] =
   Inr [\<lparr>idx = ''1'', start_time = 1, end_time = 5 / 2, entry_text = ''hello''\<rparr>,
        \<lparr>idx = ''3'', start_time = 3, end_time = 4, entry_text = ''bye''\<rparr>]"
proof -
  have h: "\<not> sublist '' --> '' (block_lines ''2\<newline>00:00:02,000 00:00:03,000\<newline>lost'' ! 1)"
    by code_simp
  have "parse_blocks []
          ([''1\<newline>00:00:01,000 --> 00:00:02,500\<newline>hello''] @
           ''2\<newline>00:00:02,000 00:00:03,000\<newline>lost'' #
           [''3\<newline>00:00:03,000 --> 00:00:04,000\<newline>bye'']) =
        parse_blocks []
          ([''1\<newline>00:00:01,000 --> 00:00:02,500\<newline>hello''] @
           [''3\<newline>00:00:03,000 --> 00:00:04,000\<newline>bye''])"
    using malformed_block_skipped[OF disjI2, OF h] by blast
  moreover have "parse_blocks []
          ([''1\<newline>00:00:01,000 --> 00:00:02,500\<newline>hello''] @
           [''3\<newline>00:00:03,000 --> 00:00:04,000\<newline>bye'']) =
     Inr [\<lparr>idx = ''1'', start_time = 1, end_time = 5 / 2, entry_text = ''hello''\<rparr>,
          \<lparr>idx = ''3'', start_time = 3, end_time = 4, entry_text = ''bye''\<rparr>]"
    by code_simp
  ultimately show ?thesis using h by simp
qed




section \<open>The loop over the entries\<close>

lemma entries_loop_append:
  "entries_loop B out hp k st i (xs @ ys) =
     (case entries_loop B out hp k st i xs of
        (st', None) \<Rightarrow> entries_loop B out hp k st' (i + length xs) ys
      | (st', Some err) \<Rightarrow> (st', Some err))"
proof (induction xs arbitrary: st i)
  case Nil
  then show ?case by simp
next
  case (Cons x xs)
  show ?case
  proof (cases "process_entry B out hp k st i x")
    case (Inl err)
    then show ?thesis by simp
  next
    case (Inr st')
    then show ?thesis using Cons.IH[of st' "Suc i"]
      by (simp split: prod.splits option.splits)
  qed
qed

lemma cursor_after_Cons: "cursor_after p (x # xs) = cursor_after (end_time x) xs"
  by (simp add: cursor_after_def)

lemma accumulate_append:
  "accumulate B hp a p (xs @ ys) =
     (case accumulate B hp a p xs of
        None \<Rightarrow> None
      | Some b \<Rightarrow> accumulate B hp b (cursor_after p xs) ys)"
proof (induction xs arbitrary: a p)
  case Nil
  then show ?case by (simp add: cursor_after_def)
next
  case (Cons x xs)
  show ?case
  proof (cases "append_entry B hp a p x")
    case None
    then show ?thesis by simp
  next
    case (Some b)
    then show ?thesis using Cons.IH[of b "end_time x"]
      by (simp add: cursor_after_Cons split: option.splits)
  qed
qed

lemma process_entry_inner:
  assumes "k \<noteq> 0" "(int i + 1) mod k \<noteq> 0"
    and "append_entry B hp (final_audio st) (previous_end_time st) e = Some a"
  shows "process_entry B out hp k st i e = Inr (st\<lparr>final_audio := a, previous_end_time := end_time e\<rparr>)"
  using assms by (simp add: process_entry_def)

lemma process_entry_boundary:
  assumes "k \<noteq> 0" "(int i + 1) mod k = 0"
    and "append_entry B hp (final_audio st) (previous_end_time st) e = Some a"
  shows "process_entry B out hp k st i e =
           Inr (st\<lparr>final_audio := seg_empty B, previous_end_time := end_time e,
                   part_number := Suc (part_number st),
                   exported := exported st @ [unit_of out (part_number st) a]\<rparr>)"
  using assms by (simp add: process_entry_def export_part_def unit_of_def)

lemma entries_loop_inner:
  assumes "k \<noteq> 0"
    and "\<forall>j < length es. (int (i + j) + 1) mod k \<noteq> 0"
    and "accumulate B hp (final_audio st) (previous_end_time st) es = Some a"
  shows "entries_loop B out hp k st i es =
           (st\<lparr>final_audio := a, previous_end_time := cursor_after (previous_end_time st) es\<rparr>, None)"
  using assms
proof (induction es arbitrary: st i)
  case Nil
  then show ?case by (simp add: cursor_after_def)
next
  case (Cons e es)
  from Cons.prems(3) obtain b where
    b: "append_entry B hp (final_audio st) (previous_end_time st) e = Some b"
    and acc: "accumulate B hp b (end_time e) es = Some a"
    by (cases "append_entry B hp (final_audio st) (previous_end_time st) e") simp_all
  have here: "(int i + 1) mod k \<noteq> 0"
    using Cons.prems(2)[rule_format, of 0] by simp
  have rest: "\<forall>j < length es. (int (Suc i + j) + 1) mod k \<noteq> 0"
  proof (intro allI impI)
    fix j assume "j < length es"
    then have "Suc j < length (e # es)" by simp
    from Cons.prems(2)[rule_format, OF this]
    show "(int (Suc i + j) + 1) mod k \<noteq> 0" by simp
  qed
  let ?st = "st\<lparr>final_audio := b, previous_end_time := end_time e\<rparr>"
  have step: "process_entry B out hp k st i e = Inr ?st"
    using process_entry_inner[OF Cons.prems(1) here b] .
  have "entries_loop B out hp k ?st (Suc i) es =
          (?st\<lparr>final_audio := a, previous_end_time := cursor_after (previous_end_time ?st) es\<rparr>, None)"
    using Cons.IH[OF Cons.prems(1) rest, of ?st] acc by simp
  then show ?case
    by (simp add: step cursor_after_Cons)
qed

lemma inside_chunk:
  assumes "0 < k" "int i mod k = 0" "Suc j < nat k"
  shows "(int (i + j) + 1) mod k \<noteq> 0"
proof -
  have "(int (i + j) + 1) mod k = (int i mod k + (int j + 1)) mod k"
    by (simp add: mod_add_left_eq add.assoc)
  also have "\<dots> = (int j + 1) mod k" using assms(2) by simp
  also have "\<dots> = int j + 1" using assms(1,3) by simp
  finally show ?thesis by simp
qed

lemma end_of_chunk:
  assumes "0 < k" "int i mod k = 0" "Suc j = nat k"
  shows "(int (i + j) + 1) mod k = 0"
proof -
  have e: "int (i + j) + 1 = int i + k" using assms(1,3) by linarith
  show ?thesis unfolding e using assms(2) by simp
qed

lemma entries_loop_remainder:
  assumes "0 < k" "int i mod k = 0" "length es < nat k"
    and "accumulate B hp (final_audio st) (previous_end_time st) es = Some a"
  shows "entries_loop B out hp k st i es =
           (st\<lparr>final_audio := a, previous_end_time := cursor_after (previous_end_time st) es\<rparr>, None)"
proof (rule entries_loop_inner)
  show "k \<noteq> 0" using assms(1) by simp
  show "\<forall>j<length es. (int (i + j) + 1) mod k \<noteq> 0"
    using inside_chunk[OF assms(1,2)] assms(3) by simp
  show "accumulate B hp (final_audio st) (previous_end_time st) es = Some a" by fact
qed

lemma entries_loop_full_chunk:
  assumes "0 < k" "int i mod k = 0" "length es = nat k"
    and "accumulate B hp (final_audio st) (previous_end_time st) es = Some a"
  shows "entries_loop B out hp k st i es =
           (st\<lparr>final_audio := seg_empty B, previous_end_time := end_time (last es),
                part_number := Suc (part_number st),
                exported := exported st @ [unit_of out (part_number st) a]\<rparr>, None)"
proof -
  have ne: "es \<noteq> []" using assms(1,3) by auto
  define xs where "xs = butlast es"
  define e where "e = last es"
  have es: "es = xs @ [e]" using ne by (simp add: xs_def e_def)
  have len: "Suc (length xs) = nat k" using assms(3) es by simp
  from assms(4) obtain b where
    b: "accumulate B hp (final_audio st) (previous_end_time st) xs = Some b"
    and a: "append_entry B hp b (cursor_after (previous_end_time st) xs) e = Some a"
    unfolding es accumulate_append
    by (cases "accumulate B hp (final_audio st) (previous_end_time st) xs")
       (auto split: option.splits)
  let ?st1 = "st\<lparr>final_audio := b, previous_end_time := cursor_after (previous_end_time st) xs\<rparr>"
  have inner: "entries_loop B out hp k st i xs = (?st1, None)"
    using entries_loop_remainder[OF assms(1,2) _ b] len by simp
  have last: "process_entry B out hp k ?st1 (i + length xs) e =
      Inr (?st1\<lparr>final_audio := seg_empty B, previous_end_time := end_time e,
                 part_number := Suc (part_number ?st1),
                 exported := exported ?st1 @ [unit_of out (part_number ?st1) a]\<rparr>)"
  proof (rule process_entry_boundary)
    show "k \<noteq> 0" using assms(1) by simp
    show "(int (i + length xs) + 1) mod k = 0"
      using end_of_chunk[OF assms(1,2) len] .
    show "append_entry B hp (final_audio ?st1) (previous_end_time ?st1) e = Some a"
      using a by simp
  qed
  show ?thesis
    unfolding es entries_loop_append inner
    by (simp add: last)
qed

text \<open>
  C2, as amended. With \<open>chunk_size = 100\<close>, 250 entries and no failing synthesis, part 1
  holds the audio of the entries 0 to 99 and part 2 that of the entries 100 to 199, each
  built from an empty buffer with the cursor left by the entry before; part 3, the
  audio of the entries 200 to 249, is exported exactly when its length is positive.
  So there are 3 output units, numbered 1, 2, 3 in this order, when the last 50 entries
  give audio of positive length, and 2 otherwise.
\<close>

theorem chunks_of_250:
  assumes "length es = 250"
    and "accumulate B hp (seg_empty B) 0 (take 100 es) = Some a1"
    and "accumulate B hp (seg_empty B) (end_time (es ! 99)) (take 100 (drop 100 es)) = Some a2"
    and "accumulate B hp (seg_empty B) (end_time (es ! 199)) (drop 200 es) = Some a3"
  shows "assemble B out hp 100 es =
           ([unit_of out 1 a1, unit_of out 2 a2] @
            (if 0 < seg_len B a3 then [unit_of out 3 a3] else []), None)"
proof -
  define x1 where "x1 = take 100 es"
  define x2 where "x2 = take 100 (drop 100 es)"
  define x3 where "x3 = drop 200 es"
  have es: "es = x1 @ x2 @ x3"
    unfolding x1_def x2_def x3_def
    by (metis append_take_drop_id drop_drop numeral_Bit0 add.commute)
  have l1: "length x1 = nat 100" and l2: "length x2 = nat 100" and l3: "length x3 < nat 100"
    using assms(1) by (simp_all add: x1_def x2_def x3_def)
  have "x1 \<noteq> []" "x2 \<noteq> []" using l1 l2 by auto
  then have "last x1 = x1 ! 99" "last x2 = x2 ! 99"
    using l1 l2 by (simp_all add: last_conv_nth)
  then have last1: "last x1 = es ! 99" and last2: "last x2 = es ! 199"
    using assms(1) by (simp_all add: x1_def x2_def)
  let ?st1 = "(initial B)\<lparr>final_audio := seg_empty B, previous_end_time := end_time (last x1),
                 part_number := Suc (part_number (initial B)),
                 exported := exported (initial B) @ [unit_of out (part_number (initial B)) a1]\<rparr>"
  have s1: "entries_loop B out hp 100 (initial B) 0 x1 = (?st1, None)"
    using assms(2) by (intro entries_loop_full_chunk l1) (simp_all add: initial_def x1_def)
  let ?st2 = "?st1\<lparr>final_audio := seg_empty B, previous_end_time := end_time (last x2),
                 part_number := Suc (part_number ?st1),
                 exported := exported ?st1 @ [unit_of out (part_number ?st1) a2]\<rparr>"
  have s2: "entries_loop B out hp 100 ?st1 100 x2 = (?st2, None)"
    using assms(3) by (intro entries_loop_full_chunk l2) (simp_all add: last1 x2_def)
  let ?st3 = "?st2\<lparr>final_audio := a3,
                 previous_end_time := cursor_after (previous_end_time ?st2) x3\<rparr>"
  have s3: "entries_loop B out hp 100 ?st2 200 x3 = (?st3, None)"
    using assms(4) by (intro entries_loop_remainder l3) (simp_all add: last2 x3_def)
  have "entries_loop B out hp 100 (initial B) 0 es = (?st3, None)"
    unfolding es entries_loop_append s1 using s2 s3 l1 l2
    by (simp add: entries_loop_append)
  then show ?thesis
    by (simp add: assemble_def export_part_def unit_of_def initial_def
                  numeral_2_eq_2 numeral_3_eq_3)
qed

theorem chunks_of_250_witness:
  "length (replicate 250 \<lparr>idx = ''7'', start_time = 1, end_time = 0, entry_text = ''''\<rparr>) = 250 \<and>
   map part (fst (assemble (pcm 1 beep) ''out'' ''v2/en_speaker_6'' 100
     (replicate 250 \<lparr>idx = ''7'', start_time = 1, end_time = 0, entry_text = ''''\<rparr>))) = [1, 2, 3]"
proof -
  let ?es = "replicate 250 \<lparr>idx = ''7'', start_time = 1, end_time = 0, entry_text = ''''\<rparr>"
  let ?B = "pcm 1 beep"
  let ?hp = "''v2/en_speaker_6''"
  have len: "length ?es = 250" by simp
  have h1: "accumulate ?B ?hp (seg_empty ?B) 0 (take 100 ?es) = Some (replicate 100 0)"
    by code_simp
  have h2: "accumulate ?B ?hp (seg_empty ?B) (end_time (?es ! 99)) (take 100 (drop 100 ?es)) =
              Some (replicate 100 0)"
    by code_simp
  have h3: "accumulate ?B ?hp (seg_empty ?B) (end_time (?es ! 199)) (drop 200 ?es) =
              Some (replicate 50 0)"
    by code_simp
  have pos: "0 < seg_len ?B (replicate 50 0)" by (simp add: pcm_def)
  have eq: "assemble ?B ''out'' ?hp 100 ?es =
              ([unit_of ''out'' 1 (replicate 100 0), unit_of ''out'' 2 (replicate 100 0)] @
               (if 0 < seg_len ?B (replicate 50 0) then [unit_of ''out'' 3 (replicate 50 0)]
                else []), None)"
    by (rule chunks_of_250[OF len h1 h2 h3])
  show ?thesis unfolding eq using pos by (simp add: unit_of_def)
qed

text \<open>
  C2 as stated fails: 250 entries with blank text that all start and end at 0 give two
  output units, both empty, and no third one.
\<close>

theorem two_units_for_250_silent_entries:
  "length (replicate 250 \<lparr>idx = ''7'', start_time = 0, end_time = 0, entry_text = ''''\<rparr>) = 250 \<and>
   assemble (pcm 8 beep) ''out'' ''v2/en_speaker_6'' 100
     (replicate 250 \<lparr>idx = ''7'', start_time = 0, end_time = 0, entry_text = ''''\<rparr>) =
   ([\<lparr>part = 1, output_path = ''out/output_part_1.wav'', audio = []\<rparr>,
     \<lparr>part = 2, output_path = ''out/output_part_2.wav'', audio = []\<rparr>], None)"
proof -
  have "assemble (pcm 8 beep) ''out'' ''v2/en_speaker_6'' 100
     (replicate 250 \<lparr>idx = ''7'', start_time = 0, end_time = 0, entry_text = ''''\<rparr>) =
   ([\<lparr>part = 1, output_path = ''out/output_part_1.wav'', audio = []\<rparr>,
     \<lparr>part = 2, output_path = ''out/output_part_2.wav'', audio = []\<rparr>], None)"
    by code_simp
  then show ?thesis by simp
qed

lemma boundary_nat:
  assumes "0 < k"
  shows "((int i + 1) mod k = 0) = (Suc i mod nat k = 0)"
proof -
  have "int (Suc i mod nat k) = (int i + 1) mod k"
    using assms by (simp add: zmod_int add.commute)
  then show ?thesis by (metis of_nat_eq_0_iff)
qed

lemma process_entry_cursor:
  "process_entry B out hp k st i e = Inr st' \<Longrightarrow> previous_end_time st' = end_time e"
  by (auto simp: process_entry_def Let_def export_part_def split: option.splits if_splits)

lemma process_entry_boundary_empty:
  "process_entry B out hp k st i e = Inr st' \<Longrightarrow> (int i + 1) mod k = 0 \<Longrightarrow>
   final_audio st' = seg_empty B"
  by (auto simp: process_entry_def Let_def export_part_def split: option.splits if_splits)

lemma process_entry_exports:
  assumes "0 < k" "process_entry B out hp k st i e = Inr st'"
  shows "length (exported st') = length (exported st) + (Suc i div nat k - i div nat k)"
proof (cases "Suc i mod nat k = 0")
  case True
  then have "(int i + 1) mod k = 0" using boundary_nat[OF assms(1)] by simp
  with assms(2) have "length (exported st') = Suc (length (exported st))"
    by (auto simp: process_entry_def Let_def export_part_def split: option.splits if_splits)
  with True show ?thesis by (simp add: div_Suc)
next
  case False
  then have "(int i + 1) mod k \<noteq> 0" using boundary_nat[OF assms(1)] by simp
  with assms(2) have "length (exported st') = length (exported st)"
    by (auto simp: process_entry_def Let_def export_part_def split: option.splits if_splits)
  with False show ?thesis by (simp add: div_Suc)
qed

lemma entries_loop_exports:
  assumes "0 < k" "entries_loop B out hp k st i es = (st', None)"
  shows "length (exported st') =
           length (exported st) + ((i + length es) div nat k - i div nat k)"
  using assms(2)
proof (induction es arbitrary: st i)
  case Nil
  then show ?case by simp
next
  case (Cons e es)
  from Cons.prems obtain st1 where
    step: "process_entry B out hp k st i e = Inr st1"
    and rest: "entries_loop B out hp k st1 (Suc i) es = (st', None)"
    by (cases "process_entry B out hp k st i e") simp_all
  have a: "length (exported st1) = length (exported st) + (Suc i div nat k - i div nat k)"
    using process_entry_exports[OF assms(1) step] .
  have b: "length (exported st') =
             length (exported st1) + ((Suc i + length es) div nat k - Suc i div nat k)"
    using Cons.IH[OF rest] .
  have m1: "i div nat k \<le> Suc i div nat k" by (simp add: div_le_mono)
  have m2: "Suc i div nat k \<le> (Suc i + length es) div nat k" by (simp add: div_le_mono)
  have "length (exported st') =
          length (exported st) + ((Suc i + length es) div nat k - i div nat k)"
    using a b m1 m2 by linarith
  then show ?case by simp
qed

lemma entries_loop_cursor:
  "entries_loop B out hp k st i es = (st', None) \<Longrightarrow>
   previous_end_time st' = cursor_after (previous_end_time st) es"
proof (induction es arbitrary: st i)
  case Nil
  then show ?case by (simp add: cursor_after_def)
next
  case (Cons e es)
  from Cons.prems obtain st1 where
    step: "process_entry B out hp k st i e = Inr st1"
    and rest: "entries_loop B out hp k st1 (Suc i) es = (st', None)"
    by (cases "process_entry B out hp k st i e") simp_all
  from Cons.IH[OF rest] process_entry_cursor[OF step]
  show ?case by (simp add: cursor_after_Cons)
qed

lemma entries_loop_final_empty:
  assumes "entries_loop B out hp k st i es = (st', None)" "es \<noteq> []"
    and "int (i + length es) mod k = 0"
  shows "final_audio st' = seg_empty B"
proof -
  define xs where "xs = butlast es"
  define e where "e = last es"
  have es: "es = xs @ [e]" using assms(2) by (simp add: xs_def e_def)
  obtain st1 r where l1: "entries_loop B out hp k st i xs = (st1, r)"
    by (cases "entries_loop B out hp k st i xs") auto
  from assms(1) have r: "r = None"
    unfolding es entries_loop_append l1 by (cases r) simp_all
  from assms(1) have "entries_loop B out hp k st1 (i + length xs) [e] = (st', None)"
    unfolding es entries_loop_append l1 r by simp
  then have step: "process_entry B out hp k st1 (i + length xs) e = Inr st'"
    by (cases "process_entry B out hp k st1 (i + length xs) e") simp_all
  have "(int (i + length xs) + 1) mod k = 0"
    using assms(3) by (simp add: es ac_simps)
  from process_entry_boundary_empty[OF step this] show ?thesis .
qed

lemma append_entry_silent:
  assumes "str_strip (entry_text e) = []" "start_time e \<le> p"
  shows "append_entry B hp a p e = Some (seg_append B a (generate_silence B 0))"
  using assms by (simp add: append_entry_def silence_duration_def max_def)

lemma accumulate_silent:
  assumes "zero_length_laws B"
  shows "silent_run p es \<Longrightarrow> seg_len B a = 0 \<Longrightarrow>
         \<exists>a'. accumulate B hp a p es = Some a' \<and> seg_len B a' = 0"
proof (induction es arbitrary: a p)
  case Nil
  then show ?case by simp
next
  case (Cons e es)
  let ?a = "seg_append B a (generate_silence B 0)"
  have step: "append_entry B hp a p e = Some ?a"
    using Cons.prems(1) by (intro append_entry_silent) simp_all
  have len: "seg_len B ?a = 0"
    using assms Cons.prems(2) by (simp add: zero_length_laws_def)
  have "silent_run (end_time e) es" using Cons.prems(1) by simp
  from Cons.IH[OF this len] show ?case by (simp add: step)
qed

section \<open>The remainder and the part numbers\<close>

lemma assemble_of_loop:
  assumes "entries_loop B out hp k (initial B) 0 es = (st, None)"
  shows "assemble B out hp k es =
           (exported st @
            (if 0 < seg_len B (final_audio st)
             then [unit_of out (part_number st) (final_audio st)] else []), None)"
  using assms by (simp add: assemble_def export_part_def unit_of_def)

lemma assemble_raised:
  assumes "entries_loop B out hp k (initial B) 0 es = (st, Some err)"
  shows "assemble B out hp k es = (exported st, Some err)"
  using assms by (simp add: assemble_def)

lemma loop_from_initial_empty:
  assumes "entries_loop B out hp k (initial B) 0 es = (st, None)"
    and "int (length es) mod k = 0"
  shows "final_audio st = seg_empty B"
proof (cases "es = []")
  case True
  with assms(1) show ?thesis by (auto simp: initial_def)
next
  case False
  show ?thesis
    using entries_loop_final_empty[OF assms(1) False] assms(2) by simp
qed

lemma no_trailing_file:
  assumes "zero_length_laws B" "0 < k" "int (length es) mod k = 0"
    and "snd (assemble B out hp k es) = None"
  shows "length (fst (assemble B out hp k es)) = length es div nat k"
proof -
  obtain st r where l: "entries_loop B out hp k (initial B) 0 es = (st, r)"
    by (cases "entries_loop B out hp k (initial B) 0 es") auto
  have r: "r = None"
    using assms(4) l by (cases r) (simp_all add: assemble_def)
  have l': "entries_loop B out hp k (initial B) 0 es = (st, None)" using l r by simp
  have "final_audio st = seg_empty B"
    using loop_from_initial_empty[OF l' assms(3)] .
  then have "seg_len B (final_audio st) = 0"
    using assms(1) by (simp add: zero_length_laws_def)
  then have "fst (assemble B out hp k es) = exported st"
    by (simp add: assemble_of_loop[OF l'])
  moreover have "length (exported st) = length es div nat k"
    using entries_loop_exports[OF assms(2) l'] by (simp add: initial_def)
  ultimately show ?thesis by simp
qed

lemma silent_tail_no_file:
  assumes "zero_length_laws B" "0 < k" "int (length full) mod k = 0"
    and "length tail < nat k" "silent_run (cursor_after 0 full) tail"
  shows "assemble B out hp k (full @ tail) = assemble B out hp k full"
proof -
  obtain st r where l: "entries_loop B out hp k (initial B) 0 full = (st, r)"
    by (cases "entries_loop B out hp k (initial B) 0 full") auto
  show ?thesis
  proof (cases r)
    case (Some err)
    then show ?thesis using l by (simp add: assemble_def entries_loop_append)
  next
    case None
    with l have l': "entries_loop B out hp k (initial B) 0 full = (st, None)" by simp
    have "final_audio st = seg_empty B"
      using loop_from_initial_empty[OF l' assms(3)] .
    then have z: "seg_len B (final_audio st) = 0"
      using assms(1) by (simp add: zero_length_laws_def)
    have c: "previous_end_time st = cursor_after 0 full"
      using entries_loop_cursor[OF l'] by (simp add: initial_def)
    from accumulate_silent[OF assms(1) assms(5) z, of hp] obtain a where
      a: "accumulate B hp (final_audio st) (previous_end_time st) tail = Some a"
      and za: "seg_len B a = 0"
      unfolding c by blast
    let ?st' = "st\<lparr>final_audio := a,
                   previous_end_time := cursor_after (previous_end_time st) tail\<rparr>"
    have t: "entries_loop B out hp k st (0 + length full) tail = (?st', None)"
      using assms(3) by (intro entries_loop_remainder assms(2) assms(4) a) simp
    have "entries_loop B out hp k (initial B) 0 (full @ tail) = (?st', None)"
      unfolding entries_loop_append l' using t by simp
    from assemble_of_loop[OF this] assemble_of_loop[OF l'] z za
    show ?thesis by simp
  qed
qed

text \<open>
  C10. The export after the loop happens exactly when the buffer left by the loop has
  positive length. With a library whose empty segment has length 0 and for which a
  silence of 0 ms keeps a length of 0, and a positive \<open>chunk_size\<close>: no entries give
  no file; a run that does not raise over a number of entries that is a multiple of
  \<open>chunk_size\<close> gives exactly that many files divided by \<open>chunk_size\<close>, none of them a
  trailing one; and entries with blank text and no gap, fewer than \<open>chunk_size\<close>, after the
  last full chunk change nothing of what is exported.
\<close>

theorem remainder_export:
  assumes "zero_length_laws B" "0 < k"
  shows "assemble B out hp k [] = ([], None) \<and>
         (int (length es) mod k = 0 \<longrightarrow> snd (assemble B out hp k es) = None \<longrightarrow>
            length (fst (assemble B out hp k es)) = length es div nat k) \<and>
         (int (length full) mod k = 0 \<longrightarrow> length tail < nat k \<longrightarrow>
            silent_run (cursor_after 0 full) tail \<longrightarrow>
            assemble B out hp k (full @ tail) = assemble B out hp k full) \<and>
         (\<forall>st. entries_loop B out hp k (initial B) 0 es = (st, None) \<longrightarrow>
            assemble B out hp k es =
              (exported st @
               (if 0 < seg_len B (final_audio st)
                then [unit_of out (part_number st) (final_audio st)] else []), None))"
proof -
  have "entries_loop B out hp k (initial B) 0 [] = (initial B, None)" by simp
  from assemble_of_loop[OF this] have 1: "assemble B out hp k [] = ([], None)"
    using assms(1) by (simp add: zero_length_laws_def initial_def)
  have 2: "length (fst (assemble B out hp k es)) = length es div nat k"
    if "int (length es) mod k = 0" "snd (assemble B out hp k es) = None"
    using no_trailing_file[OF assms that] .
  have 3: "assemble B out hp k (full @ tail) = assemble B out hp k full"
    if "int (length full) mod k = 0" "length tail < nat k"
       "silent_run (cursor_after 0 full) tail"
    using silent_tail_no_file[OF assms that] .
  have 4: "assemble B out hp k es =
              (exported st @
               (if 0 < seg_len B (final_audio st)
                then [unit_of out (part_number st) (final_audio st)] else []), None)"
    if "entries_loop B out hp k (initial B) 0 es = (st, None)" for st
    using assemble_of_loop[OF that] .
  show ?thesis
    using 1 2 3 4 by (intro conjI impI allI)
qed

lemma zero_length_laws_pcm: "zero_length_laws (pcm rate voice)"
  by (simp add: zero_length_laws_def pcm_def generate_silence_def)

theorem remainder_export_witness:
  "zero_length_laws (pcm 8 beep) \<and>
   assemble (pcm 8 beep) ''out'' ''v2/en_speaker_6'' 2 [] = ([], None) \<and>
   length (fst (assemble (pcm 8 beep) ''out'' ''v2/en_speaker_6'' 2
     [\<lparr>idx = ''1'', start_time = 0, end_time = 1, entry_text = ''a''\<rparr>,
      \<lparr>idx = ''2'', start_time = 1, end_time = 2, entry_text = ''b''\<rparr>,
      \<lparr>idx = ''3'', start_time = 2, end_time = 3, entry_text = ''c''\<rparr>,
      \<lparr>idx = ''4'', start_time = 3, end_time = 4, entry_text = ''d''\<rparr>])) = 2 \<and>
   assemble (pcm 8 beep) ''out'' ''v2/en_speaker_6'' 2
     ([\<lparr>idx = ''1'', start_time = 0, end_time = 1, entry_text = ''a''\<rparr>,
       \<lparr>idx = ''2'', start_time = 1, end_time = 2, entry_text = ''b''\<rparr>] @
      [\<lparr>idx = ''3'', start_time = 2, end_time = 3, entry_text = '' ''\<rparr>]) =
   assemble (pcm 8 beep) ''out'' ''v2/en_speaker_6'' 2
     [\<lparr>idx = ''1'', start_time = 0, end_time = 1, entry_text = ''a''\<rparr>,
      \<lparr>idx = ''2'', start_time = 1, end_time = 2, entry_text = ''b''\<rparr>]"
proof -
  let ?B = "pcm 8 beep"
  let ?four = "[\<lparr>idx = ''1'', start_time = 0, end_time = 1, entry_text = ''a''\<rparr>,
      \<lparr>idx = ''2'', start_time = 1, end_time = 2, entry_text = ''b''\<rparr>,
      \<lparr>idx = ''3'', start_time = 2, end_time = 3, entry_text = ''c''\<rparr>,
      \<lparr>idx = ''4'', start_time = 3, end_time = 4, entry_text = ''d''\<rparr>]"
  let ?full = "[\<lparr>idx = ''1'', start_time = 0, end_time = 1, entry_text = ''a''\<rparr>,
       \<lparr>idx = ''2'', start_time = 1, end_time = 2, entry_text = ''b''\<rparr>]"
  let ?tail = "[\<lparr>idx = ''3'', start_time = 2, end_time = 3, entry_text = '' ''\<rparr>]"
  have laws: "zero_length_laws ?B" by (rule zero_length_laws_pcm)
  have k: "(0::int) < 2" by simp
  note inst = remainder_export[OF laws k, of "''out''" "''v2/en_speaker_6''" ?four ?full ?tail]
  have ok: "snd (assemble ?B ''out'' ''v2/en_speaker_6'' 2 ?four) = None" by code_simp
  have sil: "silent_run (cursor_after 0 ?full) ?tail" by code_simp
  have a: "assemble ?B ''out'' ''v2/en_speaker_6'' 2 [] = ([], None)"
    using inst by blast
  have b: "length (fst (assemble ?B ''out'' ''v2/en_speaker_6'' 2 ?four)) = 2"
    using inst ok by simp
  have c: "assemble ?B ''out'' ''v2/en_speaker_6'' 2 (?full @ ?tail) =
           assemble ?B ''out'' ''v2/en_speaker_6'' 2 ?full"
    using inst sil by simp
  from laws a b c show ?thesis by blast
qed

lemma initial_numbered: "numbered out (initial B)"
  by (simp add: numbered_def initial_def)

lemma process_entry_numbered:
  assumes "numbered out st" "process_entry B out hp k st i e = Inr st'"
  shows "numbered out st'"
proof -
  from assms(2) obtain a where
    a: "append_entry B hp (final_audio st) (previous_end_time st) e = Some a" and k: "k \<noteq> 0"
    by (auto simp: process_entry_def Let_def split: option.splits if_splits)
  show ?thesis
  proof (cases "(int i + 1) mod k = 0")
    case True
    from assms(2) process_entry_boundary[OF k True a, of out]
    have st': "st' = st\<lparr>final_audio := seg_empty B, previous_end_time := end_time e,
                   part_number := Suc (part_number st),
                   exported := exported st @ [unit_of out (part_number st) a]\<rparr>"
      by simp
    show ?thesis
      using assms(1) unfolding st' numbered_def by (simp add: unit_of_def)
  next
    case False
    from assms(2) process_entry_inner[OF k False a, of out]
    have st': "st' = st\<lparr>final_audio := a, previous_end_time := end_time e\<rparr>"
      by simp
    show ?thesis
      using assms(1) unfolding st' numbered_def by simp
  qed
qed

lemma entries_loop_numbered:
  "numbered out st \<Longrightarrow> entries_loop B out hp k st i es = (st', r) \<Longrightarrow> numbered out st'"
proof (induction es arbitrary: st i)
  case Nil
  then show ?case by simp
next
  case (Cons e es)
  show ?case
  proof (cases "process_entry B out hp k st i e")
    case (Inl err)
    with Cons.prems show ?thesis by simp
  next
    case (Inr st1)
    with Cons.prems have "entries_loop B out hp k st1 (Suc i) es = (st', r)" by simp
    from Cons.IH[OF process_entry_numbered[OF Cons.prems(1) Inr] this] show ?thesis .
  qed
qed

lemma numbered_units:
  assumes "numbered out st"
  shows "map part (exported st) = [1..<Suc (length (exported st))]"
    and "map output_path (exported st) = map (part_path out) [1..<Suc (length (exported st))]"
proof -
  have p: "map part (exported st) = [1..<part_number st]"
    using assms by (simp add: numbered_def)
  then have "length (exported st) = part_number st - 1"
    by (metis length_map length_upt)
  moreover have "0 < part_number st" using assms by (simp add: numbered_def)
  ultimately have n: "Suc (length (exported st)) = part_number st" by simp
  show 1: "map part (exported st) = [1..<Suc (length (exported st))]"
    using p n by simp
  have "exported st = map (\<lambda>u. unit_of out (part u) (audio u)) (exported st)"
    using assms by (simp add: numbered_def)
  then have "map output_path (exported st) =
               map output_path (map (\<lambda>u. unit_of out (part u) (audio u)) (exported st))"
    by simp
  also have "\<dots> = map (part_path out) (map part (exported st))"
    by (simp add: unit_of_def)
  finally show "map output_path (exported st) =
                  map (part_path out) [1..<Suc (length (exported st))]"
    using 1 by simp
qed

lemma assemble_numbered:
  "\<exists>st. numbered out st \<and> fst (assemble B out hp k es) = exported st"
proof -
  obtain st r where l: "entries_loop B out hp k (initial B) 0 es = (st, r)"
    by (cases "entries_loop B out hp k (initial B) 0 es") auto
  have n: "numbered out st"
    using entries_loop_numbered[OF initial_numbered l] .
  show ?thesis
  proof (cases "r = None \<and> 0 < seg_len B (final_audio st)")
    case True
    let ?st = "(export_part out st)\<lparr>part_number := Suc (part_number st)\<rparr>"
    have "numbered out ?st"
      using n by (simp add: numbered_def export_part_def unit_of_def)
    moreover have "fst (assemble B out hp k es) = exported ?st"
      using l True by (simp add: assemble_def)
    ultimately show ?thesis by blast
  next
    case False
    then have "fst (assemble B out hp k es) = exported st"
      using l by (cases r) (auto simp: assemble_def)
    with n show ?thesis by blast
  qed
qed

lemma srt_to_audio_numbered:
  "\<exists>st. numbered out st \<and> written (srt_to_audio B fs p out hp k) = exported st"
proof (cases "fs p = None \<or> makedirs fs out \<noteq> None \<or> isl (parse_srt fs p)")
  case True
  then have "written (srt_to_audio B fs p out hp k) = []"
    by (auto simp: srt_to_audio_def split: option.splits sum.splits)
  then have "written (srt_to_audio B fs p out hp k) = exported (initial B)"
    by (simp add: initial_def)
  then show ?thesis using initial_numbered by blast
next
  case False
  then obtain es where es: "parse_srt fs p = Inr es"
    by (cases "parse_srt fs p") auto
  have "written (srt_to_audio B fs p out hp k) = fst (assemble B out hp k es)"
    using False es by (auto simp: srt_to_audio_def split: prod.splits)
  then show ?thesis using assemble_numbered[of out B hp k es] by simp
qed

text \<open>
  C8. In every run, whatever it raises, the units written carry the part numbers
  1, 2, ..., n in the order of their export, each under the path of its number; the
  numbers are strictly increasing and no two units share one.
\<close>

theorem part_numbers_increase:
  "map part (written (srt_to_audio B fs p out hp k)) =
     [1..<Suc (length (written (srt_to_audio B fs p out hp k)))] \<and>
   map output_path (written (srt_to_audio B fs p out hp k)) =
     map (part_path out) [1..<Suc (length (written (srt_to_audio B fs p out hp k)))] \<and>
   sorted_wrt (<) (map part (written (srt_to_audio B fs p out hp k))) \<and>
   distinct (map part (written (srt_to_audio B fs p out hp k)))"
proof -
  obtain st where n: "numbered out st"
    and w: "written (srt_to_audio B fs p out hp k) = exported st"
    using srt_to_audio_numbered by blast
  have 1: "map part (exported st) = [1..<Suc (length (exported st))]"
    using numbered_units(1)[OF n] .
  have 2: "map output_path (exported st) = map (part_path out) [1..<Suc (length (exported st))]"
    using numbered_units(2)[OF n] .
  have 3: "sorted_wrt (<) (map part (exported st))"
    unfolding 1 by (rule sorted_wrt_upt)
  have 4: "distinct (map part (exported st))"
    unfolding 1 by (rule distinct_upt)
  show ?thesis unfolding w using 1 2 3 4 by (intro conjI)
qed

text \<open>
  C9. When the input path does not exist, the run raises \<^verbatim>\<open>FileNotFoundError\<close> with no
  directory created and nothing written, whatever the other arguments, the library and
  the synthesizer are: neither the parser nor the loop is reached.
\<close>

theorem missing_input_raises_first:
  assumes "fs srt_file_path = None"
  shows "srt_to_audio B fs srt_file_path output_dir history_prompt chunk_size =
           \<lparr>created = [], written = [], raised = Some FileNotFoundError\<rparr>"
  using assms by (simp add: srt_to_audio_def)

theorem missing_input_raises_first_witness:
  "srt_to_audio (pcm 8 beep) Map.empty ''missing.srt'' ''out'' ''v2/en_speaker_6'' 100 =
     \<lparr>created = [], written = [], raised = Some FileNotFoundError\<rparr>"
proof -
  have h: "(Map.empty :: filesystem) ''missing.srt'' = None" by simp
  show ?thesis by (rule missing_input_raises_first[OF h])
qed

section \<open>The cursor, the gap and a run of two entries\<close>

text \<open>
  C6. The cursor starts at 0; an iteration that completes leaves it at the \<open>end_time\<close> of
  its entry, whatever the cursor was before and whether or not speech was synthesized;
  so after a loop that completes it is the \<open>end_time\<close> of the last entry (0 for no entry).
\<close>

theorem cursor_follows_end_time:
  "previous_end_time (initial B) = 0 \<and>
   (process_entry B out hp k st i e = Inr st' \<longrightarrow> previous_end_time st' = end_time e) \<and>
   (entries_loop B out hp k (initial B) 0 es = (st'', None) \<longrightarrow>
      previous_end_time st'' = (if es = [] then 0 else end_time (last es)))"
proof -
  have 1: "previous_end_time (initial B) = 0" by (simp add: initial_def)
  have 2: "previous_end_time st' = end_time e"
    if "process_entry B out hp k st i e = Inr st'"
    using process_entry_cursor[OF that] .
  have 3: "previous_end_time st'' = (if es = [] then 0 else end_time (last es))"
    if "entries_loop B out hp k (initial B) 0 es = (st'', None)"
    using entries_loop_cursor[OF that] 1 by (simp add: cursor_after_def)
  show ?thesis using 1 2 3 by (intro conjI impI)
qed

theorem cursor_follows_end_time_witness:
  "process_entry (pcm 8 beep) ''out'' ''v2/en_speaker_6'' 10
     \<lparr>final_audio = [], previous_end_time = 5, part_number = 1, exported = []\<rparr> 0
     \<lparr>idx = ''9'', start_time = 1, end_time = 2, entry_text = ''''\<rparr> =
   Inr \<lparr>final_audio = [], previous_end_time = 2, part_number = 1, exported = []\<rparr> \<and>
   previous_end_time \<lparr>final_audio = ([] :: int list), previous_end_time = 2, part_number = 1,
     exported = []\<rparr> =
   end_time \<lparr>idx = ''9'', start_time = 1, end_time = 2, entry_text = ''''\<rparr>"
proof -
  have step: "process_entry (pcm 8 beep) ''out'' ''v2/en_speaker_6'' 10
     \<lparr>final_audio = [], previous_end_time = 5, part_number = 1, exported = []\<rparr> 0
     \<lparr>idx = ''9'', start_time = 1, end_time = 2, entry_text = ''''\<rparr> =
   Inr \<lparr>final_audio = [], previous_end_time = 2, part_number = 1, exported = []\<rparr>"
    by code_simp
  from cursor_follows_end_time[of "pcm 8 beep" "''out''" "''v2/en_speaker_6''" 10
      "\<lparr>final_audio = [], previous_end_time = 5, part_number = 1, exported = []\<rparr>" 0
      "\<lparr>idx = ''9'', start_time = 1, end_time = 2, entry_text = ''''\<rparr>"
      "\<lparr>final_audio = [], previous_end_time = 2, part_number = 1, exported = []\<rparr>"] step
  have "previous_end_time \<lparr>final_audio = ([] :: int list), previous_end_time = 2,
          part_number = 1, exported = []\<rparr> =
        end_time \<lparr>idx = ''9'', start_time = 1, end_time = 2, entry_text = ''''\<rparr>"
    by blast
  with step show ?thesis by blast
qed






lemma str_strip_hi: "str_strip ''hi'' = ''hi''"
  by code_simp

lemma str_strip_nil: "str_strip [] = []"
  by (simp add: str_strip_def)

text \<open>
  C3. For the entries A (0 to 1, text \<open>hi\<close>) and B (3 to 4, empty text) and
  \<open>chunk_size = 10\<close>, when the synthesizer returns samples for \<open>hi\<close> and the library gives
  the resulting buffer a positive length, exactly one unit is written, part 1, holding in
  this order a silence of 0 ms, the speech for \<open>hi\<close> and a silence of 2000 ms, and nothing
  else.
\<close>

theorem two_entries_one_unit:
  assumes "generate_audio B ''hi'' hp = Some audio_np"
    and "0 < seg_len B
           (seg_append B
              (seg_append B (seg_append B (seg_empty B) (generate_silence B 0))
                 (numpy_array_to_audiosegment B audio_np (SAMPLE_RATE B)))
              (generate_silence B 2000))"
  shows "assemble B out hp 10
           [\<lparr>idx = ia, start_time = 0, end_time = 1, entry_text = ''hi''\<rparr>,
            \<lparr>idx = ib, start_time = 3, end_time = 4, entry_text = ''''\<rparr>] =
         ([unit_of out 1
             (seg_append B
                (seg_append B (seg_append B (seg_empty B) (generate_silence B 0))
                   (numpy_array_to_audiosegment B audio_np (SAMPLE_RATE B)))
                (generate_silence B 2000))], None)"
proof -
  let ?A = "\<lparr>idx = ia, start_time = 0, end_time = 1, entry_text = ''hi''\<rparr>"
  let ?C = "\<lparr>idx = ib, start_time = 3, end_time = 4, entry_text = ''''\<rparr>"
  let ?a1 = "seg_append B (seg_append B (seg_empty B) (generate_silence B 0))
               (numpy_array_to_audiosegment B audio_np (SAMPLE_RATE B))"
  let ?a2 = "seg_append B ?a1 (generate_silence B 2000)"
  have e1: "append_entry B hp (seg_empty B) 0 ?A = Some ?a1"
    using assms(1) by (simp add: append_entry_def silence_duration_def str_strip_hi)
  have e2: "append_entry B hp ?a1 1 ?C = Some ?a2"
    by (simp add: append_entry_def silence_duration_def str_strip_nil)
  have acc: "accumulate B hp (final_audio (initial B)) (previous_end_time (initial B)) [?A, ?C] =
               Some ?a2"
    by (simp add: initial_def e1 e2)
  have "entries_loop B out hp 10 (initial B) 0 [?A, ?C] =
          ((initial B)\<lparr>final_audio := ?a2,
              previous_end_time := cursor_after (previous_end_time (initial B)) [?A, ?C]\<rparr>, None)"
    using acc by (intro entries_loop_remainder) simp_all
  from assemble_of_loop[OF this] assms(2) show ?thesis
    by (simp add: initial_def)
qed

theorem two_entries_one_unit_witness:
  "assemble (pcm 8 beep) ''out'' ''v2/en_speaker_6'' 10
     [\<lparr>idx = ''1'', start_time = 0, end_time = 1, entry_text = ''hi''\<rparr>,
      \<lparr>idx = ''2'', start_time = 3, end_time = 4, entry_text = ''''\<rparr>] =
   ([\<lparr>part = 1, output_path = ''out/output_part_1.wav'',
      audio = [1, 2, 3] @ replicate 16 0\<rparr>], None)"
proof -
  let ?B = "pcm 8 beep"
  have g: "generate_audio ?B ''hi'' ''v2/en_speaker_6'' = Some [1, 2, 3]"
    by (simp add: pcm_def beep_def)
  have buf: "seg_append ?B
              (seg_append ?B (seg_append ?B (seg_empty ?B) (generate_silence ?B 0))
                 (numpy_array_to_audiosegment ?B [1, 2, 3] (SAMPLE_RATE ?B)))
              (generate_silence ?B 2000) = [1, 2, 3] @ replicate 16 0"
    by (simp add: pcm_def generate_silence_def numpy_array_to_audiosegment_def)
  have pos: "0 < seg_len ?B
              (seg_append ?B
                (seg_append ?B (seg_append ?B (seg_empty ?B) (generate_silence ?B 0))
                   (numpy_array_to_audiosegment ?B [1, 2, 3] (SAMPLE_RATE ?B)))
                (generate_silence ?B 2000))"
    unfolding buf by (simp add: pcm_def)
  have p: "part_path ''out'' (Suc 0) = ''out/output_part_1.wav''" by code_simp
  show ?thesis
    using two_entries_one_unit[OF g pos, of "''out''" "''1''" "''2''"]
    unfolding buf by (simp add: unit_of_def p)
qed

end
